theory Spec2Isabelle
  imports Main "HOL-Library.Word"
begin

section \<open>Bytes, streams and the struct codec\<close>

text \<open>
  Python \<open>bytes\<close> are lists of 8-bit words; Python integers are unbounded, so the numeric
  fields of a Ticket are \<open>int\<close>. A \<open>BytesIO\<close> stream is the list of bytes that are
  still unread: \<open>f.read(n)\<close> returns at most \<open>n\<close> bytes and never fails.
\<close>

type_synonym byte = "8 word"
type_synonym bytes = "byte list"

datatype error =
    StructError string        \<comment> \<open>\<open>struct.error\<close>, tagged with the field being converted\<close>
  | ValueError string         \<comment> \<open>\<open>ValueError\<close>\<close>
  | Exception string          \<comment> \<open>\<open>Exception(msg)\<close>\<close>
  | BinasciiError             \<comment> \<open>\<open>binascii.Error\<close>\<close>
  | IndexError                \<comment> \<open>\<open>IndexError\<close>\<close>

definition read :: "nat \<Rightarrow> bytes \<Rightarrow> bytes \<times> bytes" where
  "read n f = (take n f, drop n f)"

text \<open>Big-endian unsigned integers of \<open>n\<close> bytes, as \<open>struct\<close> formats \<open>>B >H >L >Q\<close>.\<close>

fun be_bytes :: "nat \<Rightarrow> int \<Rightarrow> bytes" where
  "be_bytes 0 x = []"
| "be_bytes (Suc n) x = be_bytes n (x div 256) @ [word_of_int (x mod 256)]"

definition be_int :: "bytes \<Rightarrow> int" where
  "be_int bs = foldl (\<lambda>acc b. acc * 256 + uint b) 0 bs"

text \<open>\<open>struct.pack\<close> raises \<open>struct.error\<close> when the value does not fit the format.\<close>

definition struct_pack :: "string \<Rightarrow> nat \<Rightarrow> int \<Rightarrow> error + bytes" where
  "struct_pack fld n x =
     (if 0 \<le> x \<and> x < 256 ^ n then Inr (be_bytes n x) else Inl (StructError fld))"

text \<open>\<open>struct.unpack\<close> raises \<open>struct.error\<close> unless the buffer has exactly the format's size.\<close>

definition struct_unpack :: "string \<Rightarrow> nat \<Rightarrow> bytes \<Rightarrow> error + int" where
  "struct_unpack fld n b =
     (if length b = n then Inr (be_int b) else Inl (StructError fld))"

text \<open>Format \<open>>?\<close>: any non-zero byte unpacks to \<open>True\<close>; \<open>True\<close> packs to \<open>0x01\<close>.\<close>

definition pack_bool :: "bool \<Rightarrow> bytes" where
  "pack_bool b = [if b then 1 else 0]"

definition unpack_bool :: "string \<Rightarrow> bytes \<Rightarrow> error + bool" where
  "unpack_bool fld b =
     (case b of [x] \<Rightarrow> Inr (x \<noteq> 0) | _ \<Rightarrow> Inl (StructError fld))"

definition bindE :: "error + 'a \<Rightarrow> ('a \<Rightarrow> error + 'b) \<Rightarrow> error + 'b" where
  "bindE m k = (case m of Inl e \<Rightarrow> Inl e | Inr x \<Rightarrow> k x)"

section \<open>The Ticket record\<close>

text \<open>
  \<open>Signature\<close> and \<open>Certificate\<close> are classes of the package that \<open>Ticket.py\<close> imports;
  they stay abstract (type parameters \<open>'sig\<close> and \<open>'cert\<close>), and their parsers, packers and
  \<open>zerofill\<close> are parameters of the operations that call them.
\<close>

record ('sig, 'cert) Ticket =
  signature :: 'sig
  issuer :: bytes
  ecdhdata :: bytes
  unused1 :: bytes
  titlekey :: bytes
  unknown1 :: bytes
  ticketid :: bytes
  consoleid :: int
  titleid :: int
  unknown2 :: bytes
  titleversion :: int
  permitted_titles_mask :: int
  permit_mask :: int
  export_allowed :: bool
  ckeyindex :: int
  unknown3 :: bytes
  content_access_permissions :: bytes
  padding :: int
  limits :: bytes
  certificates :: "'cert list"

text \<open>\<open>Ticket.get_iv\<close>: \<open>struct.pack(">Q", self.titleid) + b"\x00" * 8\<close>.\<close>

definition get_iv :: "('sig, 'cert) Ticket \<Rightarrow> error + bytes" where
  "get_iv t = bindE (struct_pack ''titleid'' 8 (titleid t)) (\<lambda>b. Inr (b @ replicate 8 0))"

section \<open>The binary codec\<close>

text \<open>
  \<open>Ticket.parse\<close>. \<open>sig_parse\<close> and \<open>cert_parse\<close> stand for \<open>Signature(f)\<close> and
  \<open>Certificate(f)\<close>: each reads from the stream and leaves it after what it consumed.
  The byte fields are plain \<open>f.read(n)\<close>; only \<open>struct.unpack\<close> checks a length.
\<close>

definition parse ::
  "(bytes \<Rightarrow> error + 'sig \<times> bytes) \<Rightarrow> (bytes \<Rightarrow> error + 'cert \<times> bytes) \<Rightarrow> bytes
     \<Rightarrow> error + ('sig, 'cert) Ticket" where
  "parse sig_parse cert_parse f0 =
     bindE (sig_parse f0) (\<lambda>(sg, f).
       let (iss, f) = read 64 f;
           (ecdh, f) = read 60 f;
           (un1, f) = read 3 f;
           (tk, f) = read 16 f;
           (uk1, f) = read 1 f;
           (tkid, f) = read 8 f;
           (b_cid, f) = read 4 f
       in bindE (struct_unpack ''consoleid'' 4 b_cid) (\<lambda>cid.
       let (b_tid, f) = read 8 f
       in bindE (struct_unpack ''titleid'' 8 b_tid) (\<lambda>tid.
       let (uk2, f) = read 2 f;
           (b_ver, f) = read 2 f
       in bindE (struct_unpack ''titleversion'' 2 b_ver) (\<lambda>ver.
       let (b_ptm, f) = read 4 f
       in bindE (struct_unpack ''permitted_titles_mask'' 4 b_ptm) (\<lambda>ptm.
       let (b_pm, f) = read 4 f
       in bindE (struct_unpack ''permit_mask'' 4 b_pm) (\<lambda>pm.
       let (b_ex, f) = read 1 f
       in bindE (unpack_bool ''export_allowed'' b_ex) (\<lambda>ex.
       let (b_ck, f) = read 1 f
       in bindE (struct_unpack ''ckeyindex'' 1 b_ck) (\<lambda>ck.
       let (uk3, f) = read 48 f;
           (cap, f) = read 64 f;
           (b_pad, f) = read 2 f
       in bindE (struct_unpack ''padding'' 2 b_pad) (\<lambda>pad.
       let (lim, f) = read 64 f
       in bindE (cert_parse f) (\<lambda>(c1, f).
          bindE (cert_parse f) (\<lambda>(c2, f).
          Inr \<lparr>signature = sg, issuer = iss, ecdhdata = ecdh, unused1 = un1,
               titlekey = tk, unknown1 = uk1, ticketid = tkid, consoleid = cid,
               titleid = tid, unknown2 = uk2, titleversion = ver,
               permitted_titles_mask = ptm, permit_mask = pm, export_allowed = ex,
               ckeyindex = ck, unknown3 = uk3, content_access_permissions = cap,
               padding = pad, limits = lim, certificates = [c1, c2]\<rparr>)))))))))))"

text \<open>
  \<open>Ticket.pack\<close>. \<open>sig_pack\<close> and \<open>cert_pack\<close> stand for \<open>Signature.pack\<close> and
  \<open>Certificate.pack\<close>. The \<open>struct.pack\<close> calls fail in the source's order.
\<close>

definition pack ::
  "('sig \<Rightarrow> bytes) \<Rightarrow> ('cert \<Rightarrow> bytes) \<Rightarrow> ('sig, 'cert) Ticket \<Rightarrow> bool \<Rightarrow> bool
     \<Rightarrow> error + bytes" where
  "pack sig_pack cert_pack t include_signature include_certificates =
     bindE (struct_pack ''consoleid'' 4 (consoleid t)) (\<lambda>b_cid.
     bindE (struct_pack ''titleid'' 8 (titleid t)) (\<lambda>b_tid.
     bindE (struct_pack ''titleversion'' 2 (titleversion t)) (\<lambda>b_ver.
     bindE (struct_pack ''permitted_titles_mask'' 4 (permitted_titles_mask t)) (\<lambda>b_ptm.
     bindE (struct_pack ''permit_mask'' 4 (permit_mask t)) (\<lambda>b_pm.
     bindE (struct_pack ''ckeyindex'' 1 (ckeyindex t)) (\<lambda>b_ck.
     bindE (struct_pack ''padding'' 2 (padding t)) (\<lambda>b_pad.
     Inr ((if include_signature then sig_pack (signature t) else [])
          @ issuer t @ ecdhdata t @ unused1 t @ titlekey t @ unknown1 t @ ticketid t
          @ b_cid @ b_tid @ unknown2 t @ b_ver @ b_ptm @ b_pm
          @ pack_bool (export_allowed t) @ b_ck
          @ unknown3 t @ content_access_permissions t @ b_pad @ limits t
          @ (if include_certificates then concat (map cert_pack (certificates t))
             else [])))))))))"

section \<open>Title id text\<close>

definition startswith :: "'a list \<Rightarrow> 'a list \<Rightarrow> bool" where
  "startswith s p = (take (length p) s = p)"

definition hexdigit_upper :: "nat \<Rightarrow> char" where
  "hexdigit_upper d = ''0123456789ABCDEF'' ! d"

fun hex_upper :: "nat \<Rightarrow> string" where
  "hex_upper n =
     (if n < 16 then [hexdigit_upper n]
      else hex_upper (n div 16) @ [hexdigit_upper (n mod 16)])"

declare hex_upper.simps [simp del]

text \<open>\<open>"{:08X}".format(x)\<close>: sign, then zeros up to width 8, then upper-case hex digits.\<close>

definition format_08X :: "int \<Rightarrow> string" where
  "format_08X x =
     (let sgn = (if x < 0 then ''-'' else []); ds = hex_upper (nat \<bar>x\<bar>)
      in sgn @ replicate (8 - length sgn - length ds) (CHR ''0'') @ ds)"

text \<open>\<open>str.zfill(w)\<close>: zeros on the left up to width \<open>w\<close>, after a leading sign.\<close>

definition zfill :: "nat \<Rightarrow> string \<Rightarrow> string" where
  "zfill w s =
     (if w \<le> length s then s
      else case s of
        [] \<Rightarrow> replicate w (CHR ''0'')
      | c # r \<Rightarrow>
          if c = CHR ''+'' \<or> c = CHR ''-'' then c # replicate (w - length s) (CHR ''0'') @ r
          else replicate (w - length s) (CHR ''0'') @ s)"

text \<open>\<open>str.lower\<close> on the ASCII letters (the only letters \<open>format\<close> produces here).\<close>

definition lower_char :: "char \<Rightarrow> char" where
  "lower_char c =
     (let n = (of_char c :: nat) in if 65 \<le> n \<and> n \<le> 90 then char_of (n + 32) else c)"

definition lower :: "string \<Rightarrow> string" where
  "lower s = map lower_char s"

definition get_titleid :: "('sig, 'cert) Ticket \<Rightarrow> string" where
  "get_titleid t = lower (zfill 16 (format_08X (titleid t)))"

text \<open>
  \<open>int(s, 16)\<close> as CPython reads it: white space on both sides, one sign, an optional
  \<open>0x\<close>/\<open>0X\<close> prefix, hexadecimal digits with single underscores between them.
  A \<open>char\<close> stands for the code point of the same number; code points above 255 are
  outside the model.
\<close>

definition is_space :: "char \<Rightarrow> bool" where
  "is_space c = ((of_char c :: nat) \<in> {9, 10, 11, 12, 13, 32, 133, 160})"

definition hex_val :: "char \<Rightarrow> nat option" where
  "hex_val c =
     (let n = (of_char c :: nat) in
      if 48 \<le> n \<and> n \<le> 57 then Some (n - 48)
      else if 97 \<le> n \<and> n \<le> 102 then Some (n - 87)
      else if 65 \<le> n \<and> n \<le> 70 then Some (n - 55)
      else None)"

fun scan_digits :: "char \<Rightarrow> string \<Rightarrow> nat list \<Rightarrow> (nat list \<times> string) option" where
  "scan_digits prev [] acc = (if prev = CHR ''_'' then None else Some (acc, []))"
| "scan_digits prev (c # cs) acc =
     (if c = CHR ''_'' then (if prev = CHR ''_'' then None else scan_digits c cs acc)
      else case hex_val c of
        Some d \<Rightarrow> scan_digits c cs (acc @ [d])
      | None \<Rightarrow> (if prev = CHR ''_'' then None else Some (acc, c # cs)))"

definition py_int16 :: "string \<Rightarrow> error + int" where
  "py_int16 s =
     (let s1 = dropWhile is_space s;
          (sign, s2) = (case s1 of
              [] \<Rightarrow> (1, s1)
            | c # r \<Rightarrow> if c = CHR ''+'' then (1, r)
                       else if c = CHR ''-'' then (- 1, r) else (1, s1));
          s3 = (case s2 of
              a # b # r \<Rightarrow>
                if a = CHR ''0'' \<and> (b = CHR ''x'' \<or> b = CHR ''X'')
                then (case r of [] \<Rightarrow> r | u # r' \<Rightarrow> if u = CHR ''_'' then r' else r)
                else s2
            | _ \<Rightarrow> s2)
      in if startswith s3 ''_'' then Inl (ValueError ''invalid literal for int()'')
         else case scan_digits (CHR 0x00) s3 [] of
           None \<Rightarrow> Inl (ValueError ''invalid literal for int()'')
         | Some (ds, rest) \<Rightarrow>
             if ds = [] \<or> dropWhile is_space rest \<noteq> []
             then Inl (ValueError ''invalid literal for int()'')
             else Inr (sign * int (foldl (\<lambda>a d. a * 16 + d) 0 ds)))"

text \<open>\<open>Ticket.set_titleid\<close> (the argument is a \<open>str\<close> by its type).\<close>

definition set_titleid ::
  "('sig, 'cert) Ticket \<Rightarrow> string \<Rightarrow> error + ('sig, 'cert) Ticket" where
  "set_titleid t tid =
     (if length tid \<noteq> 16 then Inl (ValueError ''Title ID must be 16 characters long.'')
      else bindE (py_int16 tid) (\<lambda>val. Inr (t\<lparr>titleid := val\<rparr>)))"

section \<open>Key resolution\<close>

text \<open>Python list indexing: a negative index counts from the end.\<close>

definition py_index :: "'a list \<Rightarrow> int \<Rightarrow> error + 'a" where
  "py_index xs i =
     (if 0 \<le> i \<and> i < int (length xs) then Inr (xs ! nat i)
      else if i < 0 \<and> - int (length xs) \<le> i then Inr (xs ! nat (int (length xs) + i))
      else Inl IndexError)"

text \<open>
  \<open>Ticket.get_decryption_key\<close>. \<open>DSI_KEY\<close> and \<open>DECRYPTION_KEYS\<close> are constants of the
  package, taken as parameters. The second component is what the call prints.
\<close>

definition get_decryption_key ::
  "bytes \<Rightarrow> bytes list \<Rightarrow> ('sig, 'cert) Ticket \<Rightarrow> (error + bytes) \<times> string list" where
  "get_decryption_key DSI_KEY DECRYPTION_KEYS t =
     (if startswith (get_titleid t) ''00030'' then (Inr DSI_KEY, [])
      else case py_index DECRYPTION_KEYS (ckeyindex t) of
        Inr k \<Rightarrow> (Inr k, [])
      | Inl e \<Rightarrow> (py_index DECRYPTION_KEYS 0,
                  [''WARNING: Unknown Common Key, assuming normal key'']))"

definition key_types :: "string list" where
  "key_types = [''Normal'', ''Korean'', ''Wii U Wii Mode'']"

definition get_common_key_type :: "('sig, 'cert) Ticket \<Rightarrow> string" where
  "get_common_key_type t =
     (if startswith (get_titleid t) ''00030'' then ''DSi''
      else case py_index key_types (ckeyindex t) of
        Inr n \<Rightarrow> n
      | Inl e \<Rightarrow> ''Unknown'')"

definition set_common_key_index ::
  "('sig, 'cert) Ticket \<Rightarrow> int \<Rightarrow> error + ('sig, 'cert) Ticket" where
  "set_common_key_index t i =
     (if \<not> (0 \<le> i \<and> i \<le> 2) then Inl (Exception ''Invalid Common-Key index!'')
      else Inr (t\<lparr>ckeyindex := i\<rparr>))"

section \<open>Title key\<close>

text \<open>\<open>binascii.a2b_hex\<close> on bytes, and on a \<open>str\<close> (which must be ASCII).\<close>

definition hex_val_byte :: "byte \<Rightarrow> nat option" where
  "hex_val_byte b = hex_val (char_of (unat b))"

fun a2b_hex :: "bytes \<Rightarrow> error + bytes" where
  "a2b_hex [] = Inr []"
| "a2b_hex [x] = Inl BinasciiError"
| "a2b_hex (x # y # r) =
     (case (hex_val_byte x, hex_val_byte y) of
        (Some a, Some b) \<Rightarrow> bindE (a2b_hex r) (\<lambda>bs. Inr (of_nat (16 * a + b) # bs))
      | _ \<Rightarrow> Inl BinasciiError)"

definition a2b_hex_str :: "string \<Rightarrow> error + bytes" where
  "a2b_hex_str s =
     (if \<exists>c \<in> set s. 128 \<le> (of_char c :: nat)
      then Inl (ValueError ''string argument should contain only ASCII characters'')
      else a2b_hex (map (\<lambda>c. of_nat (of_char c)) s))"

text \<open>
  \<open>Ticket.get_decrypted_titlekey\<close> and \<open>Ticket.set_titlekey\<close>. \<open>decrypt_titlekey\<close> and
  \<open>encrypt_titlekey\<close> stand for the two functions of \<open>utils.Crypto\<close> (common key, iv,
  16 bytes in, bytes out). Mutation is explicit: a setter returns the ticket it leaves
  behind, and the lines it printed.
\<close>

definition get_decrypted_titlekey ::
  "(bytes \<Rightarrow> bytes \<Rightarrow> bytes \<Rightarrow> bytes) \<Rightarrow> bytes \<Rightarrow> bytes list \<Rightarrow> ('sig, 'cert) Ticket
     \<Rightarrow> (error + bytes) \<times> string list" where
  "get_decrypted_titlekey decrypt_titlekey DSI_KEY DECRYPTION_KEYS t =
     (case get_decryption_key DSI_KEY DECRYPTION_KEYS t of (k, out) \<Rightarrow>
        (bindE k (\<lambda>commonkey.
         bindE (get_iv t) (\<lambda>iv.
         Inr (decrypt_titlekey commonkey iv (titlekey t)))), out))"

definition set_titlekey ::
  "(bytes \<Rightarrow> bytes \<Rightarrow> bytes \<Rightarrow> bytes) \<Rightarrow> bytes \<Rightarrow> bytes list \<Rightarrow> ('sig, 'cert) Ticket
     \<Rightarrow> string \<Rightarrow> bool \<Rightarrow> (error + ('sig, 'cert) Ticket) \<times> string list" where
  "set_titlekey encrypt_titlekey DSI_KEY DECRYPTION_KEYS t key encrypted =
     (if length key \<noteq> 32 then (Inl (Exception ''Key must be 32 characters long.''), [])
      else if \<not> encrypted then
        (case get_decryption_key DSI_KEY DECRYPTION_KEYS t of (k, out) \<Rightarrow>
           (bindE k (\<lambda>commonkey.
            bindE (get_iv t) (\<lambda>iv.
            bindE (a2b_hex_str key) (\<lambda>plain.
            bindE (a2b_hex (encrypt_titlekey commonkey iv plain)) (\<lambda>b.
            Inr (t\<lparr>titlekey := b\<rparr>))))), out))
      else (bindE (a2b_hex_str key) (\<lambda>b. Inr (t\<lparr>titlekey := b\<rparr>)), []))"

section \<open>Fakesigning\<close>

text \<open>
  \<open>Ticket.fakesign\<close>. \<open>sha1hash_hex\<close> stands for \<open>utils.Crypto.create_sha1hash_hex\<close> and
  \<open>zerofill\<close> for \<open>Signature.zerofill\<close>. The ticket is mutated in place, so every
  outcome comes with the ticket it leaves behind. The loop is
  \<open>for i in range(65535)\<close>; its result is \<open>None\<close> when it runs to its end.
\<close>

function fakesign_loop ::
  "(bytes \<Rightarrow> string) \<Rightarrow> ('sig \<Rightarrow> bytes) \<Rightarrow> ('cert \<Rightarrow> bytes) \<Rightarrow> nat \<Rightarrow> ('sig, 'cert) Ticket
     \<Rightarrow> (error + unit) option \<times> ('sig, 'cert) Ticket" where
  "fakesign_loop sha1hash_hex sig_pack cert_pack i t =
     (if i < 65535 then
        (let t' = t\<lparr>padding := int i\<rparr> in
         case pack sig_pack cert_pack t' False False of
           Inl e \<Rightarrow> (Some (Inl e), t')
         | Inr b \<Rightarrow>
             if startswith (sha1hash_hex b) ''00'' then (Some (Inr ()), t')
             else fakesign_loop sha1hash_hex sig_pack cert_pack (Suc i) t')
      else (None, t))"
  by pat_completeness auto
termination
  by (relation "measure (\<lambda>(h, sp, cp, i, t). 65535 - i)") auto

declare fakesign_loop.simps [simp del]

definition fakesign ::
  "(bytes \<Rightarrow> string) \<Rightarrow> ('sig \<Rightarrow> 'sig) \<Rightarrow> ('sig \<Rightarrow> bytes) \<Rightarrow> ('cert \<Rightarrow> bytes)
     \<Rightarrow> ('sig, 'cert) Ticket \<Rightarrow> (error + unit) \<times> ('sig, 'cert) Ticket" where
  "fakesign sha1hash_hex zerofill sig_pack cert_pack t =
     (let oldval = padding t;
          t1 = t\<lparr>signature := zerofill (signature t)\<rparr>
      in case fakesign_loop sha1hash_hex sig_pack cert_pack 0 t1 of
           (Some r, t2) \<Rightarrow> (r, t2)
         | (None, t2) \<Rightarrow> (Inl (Exception ''Fakesigning failed.''), t2\<lparr>padding := oldval\<rparr>))"

text \<open>
  \<open>Ticket.__init__\<close> without a file: the defaults. The default signature and the two
  default certificates are built by the package's constructors and are parameters.
\<close>

definition Ticket_init :: "'sig \<Rightarrow> 'cert \<Rightarrow> 'cert \<Rightarrow> ('sig, 'cert) Ticket" where
  "Ticket_init sg c1 c2 =
     \<lparr>signature = sg, issuer = replicate 64 0, ecdhdata = replicate 60 0,
      unused1 = replicate 3 0, titlekey = replicate 16 0, unknown1 = [0],
      ticketid = replicate 8 0, consoleid = 0, titleid = 0, unknown2 = replicate 2 0,
      titleversion = 0, permitted_titles_mask = 0, permit_mask = 0,
      export_allowed = False, ckeyindex = 0, unknown3 = replicate 48 0,
      content_access_permissions = replicate 64 0, padding = 0,
      limits = replicate 64 0, certificates = [c1, c2]\<rparr>"

text \<open>
  The layout that \<open>parse\<close> reads and \<open>pack\<close> writes: the sizes of the \<open>f.read\<close>
  calls, the ranges of the \<open>struct\<close> formats and the two certificates.
\<close>

definition valid_ticket :: "('sig, 'cert) Ticket \<Rightarrow> bool" where
  "valid_ticket t =
     (length (issuer t) = 64 \<and> length (ecdhdata t) = 60 \<and> length (unused1 t) = 3
      \<and> length (titlekey t) = 16 \<and> length (unknown1 t) = 1 \<and> length (ticketid t) = 8
      \<and> 0 \<le> consoleid t \<and> consoleid t < 2 ^ 32
      \<and> 0 \<le> titleid t \<and> titleid t < 2 ^ 64
      \<and> length (unknown2 t) = 2
      \<and> 0 \<le> titleversion t \<and> titleversion t < 2 ^ 16
      \<and> 0 \<le> permitted_titles_mask t \<and> permitted_titles_mask t < 2 ^ 32
      \<and> 0 \<le> permit_mask t \<and> permit_mask t < 2 ^ 32
      \<and> 0 \<le> ckeyindex t \<and> ckeyindex t < 2 ^ 8
      \<and> length (unknown3 t) = 48 \<and> length (content_access_permissions t) = 64
      \<and> 0 \<le> padding t \<and> padding t < 2 ^ 16
      \<and> length (limits t) = 64
      \<and> length (certificates t) = 2)"

text \<open>
  A stand-in for the external Signature and Certificate parsers in the examples: a block
  of \<open>n\<close> bytes, taken from the stream as it is (and written back as it is).
\<close>

definition block_parse :: "nat \<Rightarrow> bytes \<Rightarrow> error + bytes \<times> bytes" where
  "block_parse n f =
     (if length f < n then Inl (StructError ''block'') else Inr (take n f, drop n f))"

text \<open>
  Following the spec's words for the title id text: a number written with exactly \<open>k\<close>
  hexadecimal digits, padded with zeros on the left (digits in upper case, as \<open>format\<close>
  writes them before \<open>lower\<close>).
\<close>

fun fixed_hex :: "nat \<Rightarrow> nat \<Rightarrow> string" where
  "fixed_hex 0 n = []"
| "fixed_hex (Suc k) n = fixed_hex k (n div 16) @ [hexdigit_upper (n mod 16)]"

section \<open>Big-endian integers\<close>

lemma length_be_bytes: "length (be_bytes n x) = n"
  by (induction n arbitrary: x) auto

lemma be_int_snoc: "be_int (bs @ [b]) = be_int bs * 256 + uint b"
  by (simp add: be_int_def)

lemma be_int_Nil: "be_int [] = 0"
  by (simp add: be_int_def)

lemma uint_byte_mod: "uint (word_of_int (x mod 256) :: byte) = x mod 256"
  by (simp add: uint_word_of_int take_bit_eq_mod)

lemma be_int_be_bytes: "0 \<le> x \<Longrightarrow> x < 256 ^ n \<Longrightarrow> be_int (be_bytes n x) = x"
proof (induction n arbitrary: x)
  case 0
  then show ?case by (simp add: be_int_Nil)
next
  case (Suc n)
  have "0 \<le> x div 256" using Suc.prems by simp
  moreover have "x div 256 < 256 ^ n" using Suc.prems by simp
  ultimately have "be_int (be_bytes n (x div 256)) = x div 256" by (rule Suc.IH)
  then show ?case by (simp add: be_int_snoc uint_byte_mod)
qed

lemma be_int_nonneg: "0 \<le> be_int bs"
  by (induction bs rule: rev_induct) (simp_all add: be_int_Nil be_int_snoc)

lemma be_int_less: "be_int bs < 256 ^ length bs"
proof (induction bs rule: rev_induct)
  case Nil
  then show ?case by (simp add: be_int_Nil)
next
  case (snoc b bs)
  have "uint b < 256" using uint_bounded [of b] by simp
  with snoc show ?case by (simp add: be_int_snoc)
qed

lemma be_bytes_be_int: "be_bytes (length bs) (be_int bs) = bs"
proof (induction bs rule: rev_induct)
  case Nil
  then show ?case by simp
next
  case (snoc b bs)
  have b: "0 \<le> uint b" "uint b < 256" using uint_bounded [of b] by simp_all
  then have d: "(be_int bs * 256 + uint b) div 256 = be_int bs" by simp
  have m: "(be_int bs * 256 + uint b) mod 256 = uint b" using b by simp
  have "be_bytes (Suc (length bs)) (be_int bs * 256 + uint b)
          = be_bytes (length bs) (be_int bs) @ [b]"
    by (simp only: be_bytes.simps d m word_of_int_uint)
  then show ?case using snoc by (simp add: be_int_snoc)
qed

lemma be_bytes_nth:
  "be_bytes n x = map (\<lambda>i. word_of_int (x div 256 ^ (n - 1 - i))) [0..<n]"
proof (induction n arbitrary: x)
  case 0
  then show ?case by simp
next
  case (Suc n)
  have w: "(word_of_int (x mod 256) :: byte) = word_of_int x"
    by (simp add: word_of_int_eq_iff take_bit_eq_mod)
  have "\<And>i. i < n \<Longrightarrow> x div 256 div 256 ^ (n - 1 - i) = x div 256 ^ (n - i)"
  proof -
    fix i assume "i < n"
    then have "n - i = Suc (n - 1 - i)" by simp
    then show "x div 256 div 256 ^ (n - 1 - i) = x div 256 ^ (n - i)"
      by (simp add: zdiv_zmult2_eq)
  qed
  then show ?case by (simp add: Suc.IH w)
qed

lemma replicate_numeral_Cons: "replicate (numeral k) x = x # replicate (pred_numeral k) x"
  by (simp add: numeral_eq_Suc)

section \<open>The initialization vector\<close>

text \<open>
  C6. For every Ticket whose title id is an unsigned 64-bit value, the initialization
  vector is the eight bytes of the title id, most significant first (byte \<open>i\<close> is the
  title id divided by \<open>256 ^ (7 - i)\<close>, reduced to a byte), followed by eight zero bytes.
\<close>

theorem get_iv_big_endian:
  assumes "0 \<le> titleid t" and "titleid t < 2 ^ 64"
  shows "get_iv t =
    Inr (map (\<lambda>i. word_of_int (titleid t div 256 ^ (7 - i))) [0..<8] @ replicate 8 0)"
proof -
  have "struct_pack ''titleid'' 8 (titleid t) = Inr (be_bytes 8 (titleid t))"
    using assms by (simp add: struct_pack_def)
  then show ?thesis
    by (simp add: get_iv_def bindE_def be_bytes_nth [of 8])
qed

theorem get_iv_big_endian_witness:
  "get_iv ((Ticket_init () () ())\<lparr>titleid := 0x0001000248414341\<rparr>) =
     Inr [0x00, 0x01, 0x00, 0x02, 0x48, 0x41, 0x43, 0x41, 0, 0, 0, 0, 0, 0, 0, 0]"
  using get_iv_big_endian [of "(Ticket_init () () ())\<lparr>titleid := 0x0001000248414341\<rparr>"]
  by (simp add: Ticket_init_def upt_rec replicate_numeral_Cons)

section \<open>Key resolution: properties\<close>

lemmas titleid_eval = get_titleid_def format_08X_def zfill_def lower_def lower_char_def
  hex_upper.simps hexdigit_upper_def startswith_def replicate_numeral_Cons

text \<open>
  C4. For every Ticket whose title id text (16 lower-case hexadecimal characters) begins
  with \<open>00030\<close>, \<open>get_decryption_key\<close> returns the reserved DSi key and prints
  nothing, whatever value \<open>ckeyindex\<close> is given.
\<close>

theorem dsi_prefix_key:
  assumes "startswith (get_titleid t) ''00030''"
  shows "get_decryption_key DSI_KEY DECRYPTION_KEYS (t\<lparr>ckeyindex := k\<rparr>) = (Inr DSI_KEY, [])"
proof -
  have "get_titleid (t\<lparr>ckeyindex := k\<rparr>) = get_titleid t"
    by (simp add: get_titleid_def)
  with assms show ?thesis
    by (simp add: get_decryption_key_def)
qed

theorem dsi_prefix_key_witness:
  "startswith (get_titleid ((Ticket_init () () ())\<lparr>titleid := 0x00030004484E4145\<rparr>)) ''00030''
   \<and> get_decryption_key [0xAA] [[1], [2], [3]]
        ((Ticket_init () () ())\<lparr>titleid := 0x00030004484E4145, ckeyindex := 200\<rparr>)
       = (Inr [0xAA], [])"
proof -
  have h: "startswith (get_titleid ((Ticket_init () () ())\<lparr>titleid := 0x00030004484E4145\<rparr>)) ''00030''"
    by (simp add: titleid_eval Ticket_init_def)
  show ?thesis
    using h dsi_prefix_key [OF h, of "[0xAA]" "[[1], [2], [3]]" 200] by simp
qed

text \<open>
  C5. A Ticket with \<open>ckeyindex = 5\<close> (outside the three-entry key table) whose title id
  begins with \<open>00030\<close> resolves to the DSi key without a warning and to the name
  \<open>DSi\<close>: the prefix test comes before any use of \<open>ckeyindex\<close>.
\<close>

theorem ckeyindex_out_of_range_dsi_counterexample:
  "ckeyindex ((Ticket_init () () ())\<lparr>titleid := 0x0003000000000000, ckeyindex := 5\<rparr>) = 5
   \<and> get_decryption_key [0xAA] [[1], [2], [3]]
        ((Ticket_init () () ())\<lparr>titleid := 0x0003000000000000, ckeyindex := 5\<rparr>)
       = (Inr [0xAA], [])
   \<and> get_common_key_type ((Ticket_init () () ())\<lparr>titleid := 0x0003000000000000, ckeyindex := 5\<rparr>)
       = ''DSi''"
  by (simp add: titleid_eval Ticket_init_def get_decryption_key_def get_common_key_type_def)

text \<open>
  C5, amended. For every Ticket whose title id does not begin with \<open>00030\<close> and whose
  \<open>ckeyindex\<close> is outside the bounds of the three-entry key table,
  \<open>get_decryption_key\<close> prints the warning and returns the table's entry 0, and
  \<open>get_common_key_type\<close> returns \<open>Unknown\<close>; the setter rejects every index
  outside \<open>0..2\<close>.
\<close>

theorem ckeyindex_out_of_range:
  assumes "\<not> startswith (get_titleid t) ''00030''"
    and "length DECRYPTION_KEYS = 3"
    and "3 \<le> ckeyindex t \<or> ckeyindex t < - 3"
  shows "get_decryption_key DSI_KEY DECRYPTION_KEYS t =
           (Inr (DECRYPTION_KEYS ! 0), [''WARNING: Unknown Common Key, assuming normal key''])
         \<and> get_common_key_type t = ''Unknown''
         \<and> (i < 0 \<or> 2 < i \<longrightarrow>
              set_common_key_index t i = Inl (Exception ''Invalid Common-Key index!''))"
  using assms
  by (auto simp add: get_decryption_key_def get_common_key_type_def py_index_def key_types_def
      set_common_key_index_def)

theorem ckeyindex_out_of_range_witness:
  "\<not> startswith (get_titleid ((Ticket_init () () ())\<lparr>ckeyindex := 5\<rparr>)) ''00030''
   \<and> get_decryption_key [0xAA] [[1], [2], [3]] ((Ticket_init () () ())\<lparr>ckeyindex := 5\<rparr>) =
           (Inr [1], [''WARNING: Unknown Common Key, assuming normal key''])
   \<and> get_common_key_type ((Ticket_init () () ())\<lparr>ckeyindex := 5\<rparr>) = ''Unknown''
   \<and> set_common_key_index ((Ticket_init () () ())\<lparr>ckeyindex := 5\<rparr>) 3
       = Inl (Exception ''Invalid Common-Key index!'')"
proof -
  have h: "\<not> startswith (get_titleid ((Ticket_init () () ())\<lparr>ckeyindex := 5\<rparr>)) ''00030''"
    by (simp add: titleid_eval Ticket_init_def)
  show ?thesis
    using h ckeyindex_out_of_range [OF h, of "[[1], [2], [3]]" "[0xAA]" 3] by simp
qed

section \<open>The title id setter\<close>

lemmas int16_eval = py_int16_def is_space_def hex_val_def

text \<open>
  C9. \<open>set_titleid\<close> accepts the 16-character string \<open>-000000000000001\<close>, which is not
  a hexadecimal string: \<open>int(tid, 16)\<close> reads the sign, the title id becomes \<open>-1\<close>, the
  getter returns \<open>-000000000000001\<close>, which is not 16 hexadecimal characters, and
  \<open>pack\<close> then fails on the title id.
\<close>

theorem set_titleid_accepts_signed:
  "set_titleid (Ticket_init () () ()) ''-000000000000001''
     = Inr ((Ticket_init () () ())\<lparr>titleid := - 1\<rparr>)
   \<and> get_titleid ((Ticket_init () () ())\<lparr>titleid := - 1\<rparr>) = ''-000000000000001''
   \<and> pack (\<lambda>s. []) (\<lambda>c. []) ((Ticket_init () () ())\<lparr>titleid := - 1\<rparr>) True True
     = Inl (StructError ''titleid'')"
  by (simp add: set_titleid_def int16_eval bindE_def titleid_eval pack_def struct_pack_def
      Ticket_init_def)

lemma set_titleid_accepts_prefix_space_underscore:
  "set_titleid (Ticket_init () () ()) ''0x00000000000012''
     = Inr ((Ticket_init () () ())\<lparr>titleid := 18\<rparr>)"
  "set_titleid (Ticket_init () () ()) '' 00000000000012 ''
     = Inr ((Ticket_init () () ())\<lparr>titleid := 18\<rparr>)"
  "set_titleid (Ticket_init () () ()) ''0000_0000_0000_1''
     = Inr ((Ticket_init () () ())\<lparr>titleid := 1\<rparr>)"
  by (simp_all add: set_titleid_def int16_eval startswith_def bindE_def)

lemma set_titleid_wrong_length:
  "length tid \<noteq> 16 \<Longrightarrow>
     set_titleid t tid = Inl (ValueError ''Title ID must be 16 characters long.'')"
  by (simp add: set_titleid_def)

subsection \<open>Hexadecimal strings\<close>

lemma fixed_hex_zero: "fixed_hex k 0 = replicate k (CHR ''0'')"
  by (induction k) (simp_all add: hexdigit_upper_def replicate_append_same)

lemma length_fixed_hex: "length (fixed_hex k n) = k"
  by (induction k arbitrary: n) simp_all

lemma pad_hex_upper:
  "n < 16 ^ Suc k \<Longrightarrow>
   length (hex_upper n) \<le> Suc k
   \<and> replicate (Suc k - length (hex_upper n)) (CHR ''0'') @ hex_upper n = fixed_hex (Suc k) n"
proof (induction k arbitrary: n)
  case 0
  then show ?case by (simp add: hex_upper.simps)
next
  case (Suc k)
  show ?case
  proof (cases "n < 16")
    case True
    then show ?thesis
      by (simp add: hex_upper.simps [of n] fixed_hex_zero replicate_append_same)
  next
    case False
    have "n div 16 < 16 ^ Suc k" using Suc.prems by (simp add: less_mult_imp_div_less)
    from Suc.IH [OF this] False show ?thesis
      by (simp add: hex_upper.simps [of n] Suc_diff_le)
  qed
qed

lemma hexdigit_upper_no_sign:
  assumes "d < 16"
  shows "hexdigit_upper d \<noteq> CHR ''+'' \<and> hexdigit_upper d \<noteq> CHR ''-''"
proof -
  from assms have "d \<in> {..<16}" by simp
  then show ?thesis
    unfolding hexdigit_upper_def
    by (simp add: lessThan_nat_numeral lessThan_Suc) (elim disjE; simp)
qed

lemma hex_upper_no_sign: "c \<in> set (hex_upper n) \<Longrightarrow> c \<noteq> CHR ''+'' \<and> c \<noteq> CHR ''-''"
proof (induction n rule: hex_upper.induct)
  case (1 n)
  show ?case
  proof (cases "n < 16")
    case True
    with "1.prems" hexdigit_upper_no_sign [of n] show ?thesis
      by (simp add: hex_upper.simps [of n])
  next
    case False
    with "1.prems" "1.IH" hexdigit_upper_no_sign [of "n mod 16"] show ?thesis
      by (auto simp: hex_upper.simps [of n])
  qed
qed

lemma hex_upper_not_Nil: "hex_upper n \<noteq> []"
  by (simp add: hex_upper.simps [of n])

lemma zfill_no_sign:
  "s = c # r \<Longrightarrow> c \<noteq> CHR ''+'' \<Longrightarrow> c \<noteq> CHR ''-'' \<Longrightarrow>
   zfill w s = replicate (w - length s) (CHR ''0'') @ s"
  by (simp add: zfill_def)

lemma replicate_join: "replicate a x @ replicate b x @ ys = replicate (a + b) x @ ys"
  by (simp add: replicate_add)

lemma zfill_format_08X:
  assumes "n < 16 ^ 16"
  shows "zfill 16 (format_08X (int n)) = fixed_hex 16 n"
proof -
  define hu where "hu = hex_upper n"
  define l where "l = length hu"
  from pad_hex_upper [of n 15] assms have l: "l \<le> 16"
    and pad: "replicate (16 - l) (CHR ''0'') @ hu = fixed_hex 16 n"
    by (simp_all add: hu_def l_def)
  have f: "format_08X (int n) = replicate (8 - l) (CHR ''0'') @ hu"
    by (simp add: format_08X_def Let_def hu_def l_def)
  have ne: "hu \<noteq> []" by (simp add: hu_def hex_upper_not_Nil)
  then obtain c r where cr: "replicate (8 - l) (CHR ''0'') @ hu = c # r"
    by (cases "replicate (8 - l) (CHR ''0'') @ hu") auto
  have "c \<in> set (replicate (8 - l) (CHR ''0'') @ hu)" by (simp add: cr)
  then have "c = CHR ''0'' \<or> c \<in> set (hex_upper n)" by (auto simp: hu_def split: if_splits)
  then have c: "c \<noteq> CHR ''+''" "c \<noteq> CHR ''-''"
    using hex_upper_no_sign [of c n] by auto
  have "zfill 16 (replicate (8 - l) (CHR ''0'') @ hu)
          = replicate (16 - length (replicate (8 - l) (CHR ''0'') @ hu)) (CHR ''0'')
            @ replicate (8 - l) (CHR ''0'') @ hu"
    by (rule zfill_no_sign [OF cr c])
  also have "\<dots> = replicate (16 - length (replicate (8 - l) (CHR ''0'') @ hu) + (8 - l)) (CHR ''0'') @ hu"
    by (rule replicate_join)
  also have "16 - length (replicate (8 - l) (CHR ''0'') @ hu) + (8 - l) = 16 - l"
    using l by (simp add: l_def)
  finally show ?thesis using pad f by simp
qed
lemma hex_val_digit:
  assumes "hex_val c = Some d"
  shows "d < 16 \<and> lower_char (hexdigit_upper d) = lower_char c \<and> \<not> is_space c
         \<and> c \<noteq> CHR ''+'' \<and> c \<noteq> CHR ''-'' \<and> c \<noteq> CHR ''_'' \<and> c \<noteq> CHR ''x'' \<and> c \<noteq> CHR ''X''"
proof -
  define n where "n = (of_char c :: nat)"
  have c: "c = char_of n" by (simp add: n_def)
  from assms consider
      "48 \<le> n" "n \<le> 57" "d = n - 48"
    | "97 \<le> n" "n \<le> 102" "d = n - 87"
    | "65 \<le> n" "n \<le> 70" "d = n - 55"
    by (auto simp: hex_val_def Let_def n_def split: if_splits)
  then show ?thesis
  proof cases
    case 1
    then have "n = 48 \<or> n = 49 \<or> n = 50 \<or> n = 51 \<or> n = 52 \<or> n = 53 \<or> n = 54 \<or> n = 55 \<or> n = 56 \<or> n = 57" by arith
    then show ?thesis
      unfolding c \<open>d = _\<close>
      by (elim disjE) (simp_all add: lower_char_def hexdigit_upper_def is_space_def char_of_def bit_0)
  next
    case 2
    then have "n = 97 \<or> n = 98 \<or> n = 99 \<or> n = 100 \<or> n = 101 \<or> n = 102" by arith
    then show ?thesis
      unfolding c \<open>d = _\<close>
      by (elim disjE) (simp_all add: lower_char_def hexdigit_upper_def is_space_def char_of_def bit_0)
  next
    case 3
    then have "n = 65 \<or> n = 66 \<or> n = 67 \<or> n = 68 \<or> n = 69 \<or> n = 70" by arith
    then show ?thesis
      unfolding c \<open>d = _\<close>
      by (elim disjE) (simp_all add: lower_char_def hexdigit_upper_def is_space_def char_of_def bit_0)
  qed
qed

lemma fixed_hex_foldl:
  assumes "\<forall>d \<in> set ds. d < 16"
  shows "fixed_hex (length ds) (foldl (\<lambda>a d. a * 16 + d) 0 ds) = map hexdigit_upper ds
         \<and> foldl (\<lambda>a d. a * 16 + d) 0 ds < 16 ^ length ds"
  using assms
proof (induction ds rule: rev_induct)
  case Nil
  then show ?case by simp
next
  case (snoc d ds)
  then have d: "d < 16" and IH: "fixed_hex (length ds) (foldl (\<lambda>a d. a * 16 + d) 0 ds)
        = map hexdigit_upper ds" "foldl (\<lambda>a d. a * 16 + d) 0 ds < 16 ^ length ds"
    by simp_all
  define v where "v = foldl (\<lambda>a d. a * 16 + d) 0 ds"
  have "(v * 16 + d) div 16 = v" "(v * 16 + d) mod 16 = d" using d by simp_all
  moreover have "v * 16 + d < 16 * 16 ^ length ds"
    using IH(2) d unfolding v_def [symmetric] by arith
  ultimately show ?case using IH by (simp add: v_def [symmetric])
qed

lemma scan_digits_hex:
  "\<forall>c \<in> set s. hex_val c \<noteq> None \<Longrightarrow> prev \<noteq> CHR ''_'' \<Longrightarrow>
   scan_digits prev s acc = Some (acc @ map (the \<circ> hex_val) s, [])"
proof (induction s arbitrary: prev acc)
  case Nil
  then show ?case by simp
next
  case (Cons c s)
  from Cons.prems obtain d where d: "hex_val c = Some d" by auto
  from hex_val_digit [OF d] have c: "c \<noteq> CHR ''_''" by simp
  from Cons.IH [of c "acc @ [d]"] Cons.prems c d show ?case by simp
qed

lemma py_int16_hex:
  assumes "s \<noteq> []" and "\<forall>c \<in> set s. hex_val c \<noteq> None"
  shows "py_int16 s = Inr (int (foldl (\<lambda>a d. a * 16 + d) 0 (map (the \<circ> hex_val) s)))"
proof -
  from assms obtain c r where s: "s = c # r" by (cases s) auto
  with assms obtain d where "hex_val c = Some d" by auto
  from hex_val_digit [OF this] have c: "\<not> is_space c" "c \<noteq> CHR ''+''" "c \<noteq> CHR ''-''"
    "c \<noteq> CHR ''_''" by simp_all
  have s2: "(case s of a # b # r \<Rightarrow>
                if a = CHR ''0'' \<and> (b = CHR ''x'' \<or> b = CHR ''X'')
                then (case r of [] \<Rightarrow> r | u # r' \<Rightarrow> if u = CHR ''_'' then r' else r)
                else s
            | _ \<Rightarrow> s) = s"
  proof (cases r)
    case Nil
    then show ?thesis by (simp add: s)
  next
    case (Cons b r')
    with assms s obtain e where "hex_val b = Some e" by auto
    from hex_val_digit [OF this] have "b \<noteq> CHR ''x''" "b \<noteq> CHR ''X''" by simp_all
    then show ?thesis by (simp add: s Cons)
  qed
  have sc: "scan_digits (CHR 0x00) s [] = Some (map (the \<circ> hex_val) s, [])"
    using scan_digits_hex [OF assms(2), of "CHR 0x00" "[]"] by simp
  have "py_int16 (c # r) = Inr (int (foldl (\<lambda>a d. a * 16 + d) 0 (map (the \<circ> hex_val) (c # r))))"
    unfolding py_int16_def using c s2 sc unfolding s
    by (simp add: startswith_def Let_def)
  then show ?thesis by (simp add: s)
qed

text \<open>
  On the strings the claim means, the setter and the getter agree with it: every string
  of 16 hexadecimal digits (either case) is accepted, the stored value is an unsigned
  64-bit number, and the getter returns the string in lower case.
\<close>

lemma set_titleid_hex:
  assumes "length tid = 16" and "\<forall>c \<in> set tid. hex_val c \<noteq> None"
  shows "\<exists>v. set_titleid t tid = Inr (t\<lparr>titleid := v\<rparr>) \<and> 0 \<le> v \<and> v < 2 ^ 64
             \<and> get_titleid (t\<lparr>titleid := v\<rparr>) = lower tid"
proof -
  define ds where "ds = map (the \<circ> hex_val) tid"
  define n where "n = foldl (\<lambda>a d. a * 16 + d) 0 ds"
  have dig: "\<And>c. c \<in> set tid \<Longrightarrow>
      the (hex_val c) < 16 \<and> lower_char (hexdigit_upper (the (hex_val c))) = lower_char c"
  proof -
    fix c assume "c \<in> set tid"
    with assms(2) obtain d where "hex_val c = Some d" by auto
    from hex_val_digit [OF this] this show
      "the (hex_val c) < 16 \<and> lower_char (hexdigit_upper (the (hex_val c))) = lower_char c"
      by simp
  qed
  then have "\<forall>d \<in> set ds. d < 16" by (auto simp: ds_def)
  from fixed_hex_foldl [OF this] assms(1)
  have fx: "fixed_hex 16 n = map hexdigit_upper ds" and lt: "n < 16 ^ 16"
    by (simp_all add: n_def ds_def)
  have ne: "tid \<noteq> []" using assms(1) by auto
  have "py_int16 tid = Inr (int n)"
    using py_int16_hex [OF ne assms(2)] by (simp add: n_def ds_def)
  then have a: "set_titleid t tid = Inr (t\<lparr>titleid := int n\<rparr>)"
    using assms(1) by (simp add: set_titleid_def bindE_def)
  have "int n < int (16 ^ 16)" using lt by (simp only: of_nat_less_iff)
  then have b: "int n < 2 ^ 64" by simp
  have "get_titleid (t\<lparr>titleid := int n\<rparr>) = lower (fixed_hex 16 n)"
    by (simp add: get_titleid_def zfill_format_08X [OF lt])
  also have "\<dots> = map (\<lambda>c. lower_char (hexdigit_upper (the (hex_val c)))) tid"
    by (simp add: fx lower_def ds_def)
  also have "\<dots> = lower tid"
    unfolding lower_def using dig by (intro map_cong) simp_all
  finally show ?thesis using a b by auto
qed

lemma lower_hexdigit:
  assumes "d < 16"
  shows "lower_char (hexdigit_upper d) \<in> set ''0123456789abcdef''"
proof -
  from assms have "d \<in> {..<16}" by simp
  then show ?thesis
    unfolding hexdigit_upper_def lower_char_def
    by (simp add: lessThan_nat_numeral lessThan_Suc) (elim disjE; simp add: char_of_def bit_0)
qed

lemma set_fixed_hex: "c \<in> set (fixed_hex k n) \<Longrightarrow> \<exists>d<16. c = hexdigit_upper d"
proof (induction k arbitrary: n)
  case 0
  then show ?case by simp
next
  case (Suc k)
  then show ?case
  proof (cases "c \<in> set (fixed_hex k (n div 16))")
    case True
    then show ?thesis by (rule Suc.IH)
  next
    case False
    with Suc.prems have "c = hexdigit_upper (n mod 16)" by simp
    moreover have "n mod 16 < 16" by simp
    ultimately show ?thesis by blast
  qed
qed

text \<open>
  For a title id that is an unsigned 64-bit number, the getter returns exactly 16
  lower-case hexadecimal characters.
\<close>

lemma get_titleid_in_range:
  assumes "0 \<le> titleid t" and "titleid t < 2 ^ 64"
  shows "length (get_titleid t) = 16 \<and> set (get_titleid t) \<subseteq> set ''0123456789abcdef''"
proof -
  define n where "n = nat (titleid t)"
  have t: "titleid t = int n" using assms(1) by (simp add: n_def)
  have "int n < int (16 ^ 16)" using assms(2) unfolding t by simp
  then have lt: "n < 16 ^ 16" by (simp only: of_nat_less_iff)
  have g: "get_titleid t = map lower_char (fixed_hex 16 n)"
    by (simp add: get_titleid_def t zfill_format_08X [OF lt] lower_def)
  have "set (map lower_char (fixed_hex 16 n)) \<subseteq> set ''0123456789abcdef''"
  proof
    fix c assume "c \<in> set (map lower_char (fixed_hex 16 n))"
    then obtain c' where "c' \<in> set (fixed_hex 16 n)" "c = lower_char c'" by auto
    with set_fixed_hex [of c' 16 n] obtain d where "d < 16" "c = lower_char (hexdigit_upper d)"
      by auto
    then show "c \<in> set ''0123456789abcdef''" using lower_hexdigit [of d] by simp
  qed
  then show ?thesis by (simp add: g length_fixed_hex)
qed

section \<open>The title key setter\<close>

lemma a2b_hex_length: "a2b_hex b = Inr r \<Longrightarrow> length b = 2 * length r"
proof (induction b arbitrary: r rule: a2b_hex.induct)
  case 1
  then show ?case by simp
next
  case (2 x)
  then show ?case by simp
next
  case (3 x y rest)
  from "3.prems" obtain a c r' where
    "hex_val_byte x = Some a" "hex_val_byte y = Some c"
    "a2b_hex rest = Inr r'" "r = of_nat (16 * a + c) # r'"
    by (auto simp: bindE_def split: option.splits sum.splits)
  with "3.IH" show ?case by simp
qed

text \<open>
  C8. With \<open>encrypted = False\<close> the 16 bytes that \<open>encrypt_titlekey\<close> returns go through
  \<open>binascii.a2b_hex\<close> once more before they are stored: whenever the call succeeds, the
  stored title key has 8 bytes, so it is never the 16-byte cipher text, whatever the
  cipher is.
\<close>

theorem set_titlekey_plain_stores_8_bytes:
  assumes "\<And>k iv p. length (encrypt_titlekey k iv p) = 16"
    and "fst (set_titlekey encrypt_titlekey DSI_KEY DECRYPTION_KEYS t key False) = Inr t'"
  shows "length (titlekey t') = 8"
proof -
  from assms(2) obtain k iv p b where
    b: "a2b_hex (encrypt_titlekey k iv p) = Inr b" and t': "t' = t\<lparr>titlekey := b\<rparr>"
    by (auto simp: set_titlekey_def bindE_def split: if_splits prod.splits sum.splits)
  from a2b_hex_length [OF b] assms(1) [of k iv p] have "length b = 8" by simp
  with t' show ?thesis by simp
qed

lemmas a2b_eval = a2b_hex_str_def hex_val_byte_def hex_val_def bindE_def

theorem set_titlekey_plain_stores_8_bytes_witness:
  "(\<forall>k iv p. length ((\<lambda>k iv p. replicate 16 (0x41 :: byte)) k iv p) = 16)
   \<and> fst (set_titlekey (\<lambda>k iv p. replicate 16 0x41) [0xAA] [[1], [2], [3]]
          (Ticket_init () () ()) ''00000000000000000000000000000000'' False)
       = Inr ((Ticket_init () () ())\<lparr>titlekey := replicate 8 0xAA\<rparr>)
   \<and> length (titlekey ((Ticket_init () () ())\<lparr>titlekey := replicate 8 0xAA\<rparr>)) = 8"
proof -
  have e: "fst (set_titlekey (\<lambda>k iv p. replicate 16 0x41) [0xAA] [[1], [2], [3]]
          (Ticket_init () () ()) ''00000000000000000000000000000000'' False)
       = Inr ((Ticket_init () () ())\<lparr>titlekey := replicate 8 0xAA\<rparr>)"
    by (simp add: set_titlekey_def get_decryption_key_def titleid_eval py_index_def get_iv_def
        struct_pack_def a2b_eval Ticket_init_def)
  show ?thesis
    using e set_titlekey_plain_stores_8_bytes [of "\<lambda>k iv p. replicate 16 0x41", OF _ e]
    by simp
qed

text \<open>
  With a cipher text that is not made of ASCII hexadecimal digits (here sixteen bytes
  \<open>0xAB\<close>), the call fails with \<open>binascii.Error\<close> and nothing is stored.
\<close>

lemma set_titlekey_plain_fails:
  "set_titlekey (\<lambda>k iv p. replicate 16 0xAB) [0xAA] [[1], [2], [3]]
     (Ticket_init () () ()) ''00000000000000000000000000000000'' False
   = (Inl BinasciiError, [])"
  by (simp add: set_titlekey_def get_decryption_key_def titleid_eval py_index_def get_iv_def
      struct_pack_def a2b_eval Ticket_init_def)

section \<open>Fakesigning: the search loop\<close>


lemma fakesign_loop_exhausted:
  "i < 65535 \<Longrightarrow>
   (\<forall>j. i \<le> j \<and> j < 65535 \<longrightarrow>
      (\<exists>c. pack sp cp (t\<lparr>padding := int j\<rparr>) False False = Inr c \<and> \<not> startswith (H c) ''00'')) \<Longrightarrow>
   fakesign_loop H sp cp i t = (None, t\<lparr>padding := 65534\<rparr>)"
proof (induction H sp cp i t rule: fakesign_loop.induct)
  case (1 H sp cp i t)
  from "1.prems" obtain c where
    c: "pack sp cp (t\<lparr>padding := int i\<rparr>) False False = Inr c" "\<not> startswith (H c) ''00''"
    by blast
  show ?case
  proof (cases "Suc i < 65535")
    case True
    have "fakesign_loop H sp cp (Suc i) (t\<lparr>padding := int i\<rparr>)
            = (None, t\<lparr>padding := int i, padding := 65534\<rparr>)"
    proof (rule "1.IH" [OF "1.prems"(1) refl c True])
      show "\<forall>j. Suc i \<le> j \<and> j < 65535 \<longrightarrow>
             (\<exists>c. pack sp cp (t\<lparr>padding := int i, padding := int j\<rparr>) False False = Inr c
                  \<and> \<not> startswith (H c) ''00'')"
        using "1.prems" by simp
    qed
    then show ?thesis
      using "1.prems"(1) c by (subst fakesign_loop.simps) simp
  next
    case False
    with "1.prems"(1) have e: "i = 65534" by simp
    have "fakesign_loop H sp cp (Suc i) (t\<lparr>padding := int i\<rparr>) = (None, t\<lparr>padding := int i\<rparr>)"
      using e by (subst fakesign_loop.simps) simp
    then show ?thesis
      using "1.prems"(1) c e by (subst fakesign_loop.simps) simp
  qed
qed

lemma fakesign_loop_frame:
  "fakesign_loop H sp cp i t = (r, t') \<Longrightarrow> t' = t\<lparr>padding := padding t'\<rparr>"
proof (induction H sp cp i t arbitrary: r t' rule: fakesign_loop.induct)
  case (1 H sp cp i t)
  show ?case
  proof (cases "i < 65535")
    case False
    with "1.prems" show ?thesis by (subst (asm) fakesign_loop.simps) auto
  next
    case True
    note i = this
    show ?thesis
    proof (cases "pack sp cp (t\<lparr>padding := int i\<rparr>) False False")
      case (Inl e)
      with i "1.prems" show ?thesis by (subst (asm) fakesign_loop.simps) auto
    next
      case (Inr b)
      show ?thesis
      proof (cases "startswith (H b) ''00''")
        case True
        with i Inr "1.prems" show ?thesis by (subst (asm) fakesign_loop.simps) auto
      next
        case False
        with i Inr "1.prems" have
          "fakesign_loop H sp cp (Suc i) (t\<lparr>padding := int i\<rparr>) = (r, t')"
          by (subst (asm) fakesign_loop.simps) simp
        from "1.IH" [OF i refl Inr False this] show ?thesis by simp
      qed
    qed
  qed
qed

lemma fakesign_loop_no_exception:
  "fakesign_loop H sp cp i t = (Some (Inl e), t') \<Longrightarrow> \<exists>f. e = StructError f"
proof (induction H sp cp i t arbitrary: t' rule: fakesign_loop.induct)
  case (1 H sp cp i t)
  show ?case
  proof (cases "i < 65535")
    case False
    with "1.prems" show ?thesis by (subst (asm) fakesign_loop.simps) auto
  next
    case True
    note i = this
    show ?thesis
    proof (cases "pack sp cp (t\<lparr>padding := int i\<rparr>) False False")
      case (Inl e')
      with i "1.prems" have "e = e'" by (subst (asm) fakesign_loop.simps) auto
      with Inl show ?thesis
        by (auto simp: pack_def bindE_def struct_pack_def split: if_splits)
    next
      case (Inr b)
      show ?thesis
      proof (cases "startswith (H b) ''00''")
        case True
        with i Inr "1.prems" show ?thesis by (subst (asm) fakesign_loop.simps) auto
      next
        case False
        with i Inr "1.prems" have
          "fakesign_loop H sp cp (Suc i) (t\<lparr>padding := int i\<rparr>) = (Some (Inl e), t')"
          by (subst (asm) fakesign_loop.simps) simp
        from "1.IH" [OF i refl Inr False this] show ?thesis .
      qed
    qed
  qed
qed

lemma pack_signature_padding:
  "pack sp cp (t\<lparr>signature := s, padding := p\<rparr>) False ic = pack sp cp (t\<lparr>padding := p\<rparr>) False ic"
  by (simp add: pack_def)


lemma be_bytes_numeral:
  "be_bytes (numeral k) x = be_bytes (pred_numeral k) (x div 256) @ [word_of_int (x mod 256)]"
  by (simp add: numeral_eq_Suc)

lemmas pack_eval = pack_def struct_pack_def bindE_def pack_bool_def Ticket_init_def
  be_bytes_numeral replicate_numeral_Cons startswith_def

section \<open>Fakesigning: outcomes\<close>




text \<open>
  C3. If every candidate padding value \<open>0, ..., 65534\<close> gives a record whose digest does
  not begin with \<open>00\<close>, the search fails with \<open>Exception("Fakesigning failed.")\<close> and
  leaves the ticket with its original padding value (and the signature zeroed).
\<close>

theorem fakesign_exhausted_restores_padding:
  assumes "\<forall>j<65535. \<exists>c. pack sp cp (t\<lparr>padding := int j\<rparr>) False False = Inr c
                       \<and> \<not> startswith (H c) ''00''"
  shows "fakesign H zerofill sp cp t
           = (Inl (Exception ''Fakesigning failed.''), t\<lparr>signature := zerofill (signature t)\<rparr>)
         \<and> padding (snd (fakesign H zerofill sp cp t)) = padding t"
proof -
  have "fakesign_loop H sp cp 0 (t\<lparr>signature := zerofill (signature t)\<rparr>)
          = (None, t\<lparr>signature := zerofill (signature t), padding := 65534\<rparr>)"
    using assms by (intro fakesign_loop_exhausted) (simp_all add: pack_signature_padding)
  then show ?thesis
    by (simp add: fakesign_def)
qed

theorem fakesign_exhausted_restores_padding_witness:
  "\<not> (\<exists>j. j < 65535 \<and> \<not> (\<exists>c. pack (\<lambda>s. s) (\<lambda>c. [])
                    ((Ticket_init [1, 2, 3 :: byte] () ())\<lparr>padding := 7, padding := int j\<rparr>)
                    False False = Inr c
        \<and> \<not> startswith ((\<lambda>b. ''da39a3ee5e6b4b0d3255bfef95601890afd80709'') c) ''00''))
   \<and> fakesign (\<lambda>b. ''da39a3ee5e6b4b0d3255bfef95601890afd80709'') (map (\<lambda>x. 0)) (\<lambda>s. s) (\<lambda>c. [])
        ((Ticket_init [1, 2, 3 :: byte] () ())\<lparr>padding := 7\<rparr>)
      = (Inl (Exception ''Fakesigning failed.''),
         (Ticket_init [0, 0, 0 :: byte] () ())\<lparr>padding := 7\<rparr>)"
proof -
  have h: "\<forall>j<65535. \<exists>c. pack (\<lambda>s. s) (\<lambda>c. []) ((Ticket_init [1, 2, 3 :: byte] () ())\<lparr>padding := 7, padding := int j\<rparr>)
                    False False = Inr c
        \<and> \<not> startswith ((\<lambda>b. ''da39a3ee5e6b4b0d3255bfef95601890afd80709'') c) ''00''"
    by (simp add: pack_def struct_pack_def bindE_def Ticket_init_def startswith_def)
  show ?thesis
    using h fakesign_exhausted_restores_padding
      [of "\<lambda>s. s" "\<lambda>c. []" "(Ticket_init [1, 2, 3 :: byte] () ())\<lparr>padding := 7\<rparr>"
          "\<lambda>b. ''da39a3ee5e6b4b0d3255bfef95601890afd80709''" "map (\<lambda>x. 0)", OF h]
    by (simp add: Ticket_init_def)
qed

text \<open>
  C10. In every outcome the ticket that \<open>fakesign\<close> leaves behind is the original one
  with its signature zero-filled and, possibly, another padding value: the signature is
  never restored and no other field changes. When the search is exhausted
  (\<open>Exception("Fakesigning failed.")\<close>) the padding is the original one, so only the
  signature differs.
\<close>

theorem fakesign_frame:
  assumes "fakesign H zerofill sp cp t = (r, t')"
  shows "t' = t\<lparr>signature := zerofill (signature t), padding := padding t'\<rparr>
         \<and> (r = Inl (Exception ''Fakesigning failed.'') \<longrightarrow> padding t' = padding t)"
proof (cases "fakesign_loop H sp cp 0 (t\<lparr>signature := zerofill (signature t)\<rparr>)")
  case (Pair ro t2)
  define p2 where "p2 = padding t2"
  from fakesign_loop_frame [OF Pair]
  have t2: "t2 = t\<lparr>signature := zerofill (signature t), padding := p2\<rparr>"
    by (simp add: p2_def)
  show ?thesis
  proof (cases ro)
    case None
    with Pair assms have "r = Inl (Exception ''Fakesigning failed.'')"
      and "t' = t2\<lparr>padding := padding t\<rparr>"
      by (simp_all add: fakesign_def)
    then show ?thesis by (simp add: t2)
  next
    case (Some r')
    with Pair assms have r: "r = r'" and t': "t' = t2" by (simp_all add: fakesign_def)
    have "r' \<noteq> Inl (Exception ''Fakesigning failed.'')"
    proof
      assume "r' = Inl (Exception ''Fakesigning failed.'')"
      with Pair Some have
        "fakesign_loop H sp cp 0 (t\<lparr>signature := zerofill (signature t)\<rparr>)
           = (Some (Inl (Exception ''Fakesigning failed.'')), t2)" by simp
      from fakesign_loop_no_exception [OF this] show False by simp
    qed
    with r t' show ?thesis by (simp add: t2)
  qed
qed

theorem fakesign_frame_witness:
  "fakesign (\<lambda>b. ''da39a3ee5e6b4b0d3255bfef95601890afd80709'') (map (\<lambda>x. 0)) (\<lambda>s. s) (\<lambda>c. [])
        ((Ticket_init [1, 2, 3 :: byte] () ())\<lparr>padding := 7\<rparr>)
      = (Inl (Exception ''Fakesigning failed.''), (Ticket_init [0, 0, 0 :: byte] () ())\<lparr>padding := 7\<rparr>)
   \<and> (Ticket_init [0, 0, 0 :: byte] () ())\<lparr>padding := 7\<rparr>
      = ((Ticket_init [1, 2, 3 :: byte] () ())\<lparr>padding := 7\<rparr>)
          \<lparr>signature := map (\<lambda>x. 0) (signature ((Ticket_init [1, 2, 3 :: byte] () ())\<lparr>padding := 7\<rparr>)),
           padding := padding ((Ticket_init [0, 0, 0 :: byte] () ())\<lparr>padding := 7\<rparr>)\<rparr>
   \<and> padding ((Ticket_init [0, 0, 0 :: byte] () ())\<lparr>padding := 7\<rparr>)
      = padding ((Ticket_init [1, 2, 3 :: byte] () ())\<lparr>padding := 7\<rparr>)"
proof -
  have "fakesign_loop (\<lambda>b. ''da39a3ee5e6b4b0d3255bfef95601890afd80709'') (\<lambda>s. s) (\<lambda>c. []) 0
          ((Ticket_init [0, 0, 0 :: byte] () ())\<lparr>padding := 7\<rparr>)
        = (None, (Ticket_init [0, 0, 0 :: byte] () ())\<lparr>padding := 7, padding := 65534\<rparr>)"
    by (rule fakesign_loop_exhausted)
       (simp_all add: pack_def struct_pack_def bindE_def Ticket_init_def startswith_def)
  then have e: "fakesign (\<lambda>b. ''da39a3ee5e6b4b0d3255bfef95601890afd80709'') (map (\<lambda>x. 0)) (\<lambda>s. s) (\<lambda>c. [])
        ((Ticket_init [1, 2, 3 :: byte] () ())\<lparr>padding := 7\<rparr>)
      = (Inl (Exception ''Fakesigning failed.''), (Ticket_init [0, 0, 0 :: byte] () ())\<lparr>padding := 7\<rparr>)"
    by (simp add: fakesign_def Ticket_init_def)
  show ?thesis
    using e fakesign_frame [OF e] by simp
qed

section \<open>The codec: round trip\<close>

lemma read_append: "length xs = n \<Longrightarrow> read n (xs @ ys) = (xs, ys)"
  by (simp add: read_def)

lemma pack_valid:
  assumes "valid_ticket t"
  shows "pack sig_pack cert_pack t isg ic =
    Inr ((if isg then sig_pack (signature t) else [])
          @ issuer t @ ecdhdata t @ unused1 t @ titlekey t @ unknown1 t @ ticketid t
          @ be_bytes 4 (consoleid t) @ be_bytes 8 (titleid t) @ unknown2 t
          @ be_bytes 2 (titleversion t) @ be_bytes 4 (permitted_titles_mask t)
          @ be_bytes 4 (permit_mask t)
          @ pack_bool (export_allowed t) @ be_bytes 1 (ckeyindex t)
          @ unknown3 t @ content_access_permissions t @ be_bytes 2 (padding t) @ limits t
          @ (if ic then concat (map cert_pack (certificates t)) else []))"
  using assms by (simp add: pack_def valid_ticket_def struct_pack_def bindE_def)

lemma unpack_bool_single: "length b = 1 \<Longrightarrow> unpack_bool fld b = Inr (hd b \<noteq> 0)"
  by (cases b) (auto simp: unpack_bool_def split: list.splits)

lemma parse_layout:
  assumes sg: "sig_parse f0 = Inr (sg, iss @ ecdh @ unu @ tk @ uka @ tkid
          @ b_cid @ b_tid @ ukb @ b_ver @ b_ptm @ b_pm @ b_ex @ b_ck
          @ ukc @ cap @ b_pad @ lim @ rest)"
    and len: "length iss = 64" "length ecdh = 60" "length unu = 3" "length tk = 16"
      "length uka = 1" "length tkid = 8" "length b_cid = 4" "length b_tid = 8"
      "length ukb = 2" "length b_ver = 2" "length b_ptm = 4" "length b_pm = 4"
      "length b_ex = 1" "length b_ck = 1" "length ukc = 48"
      "length cap = 64" "length b_pad = 2" "length lim = 64"
    and ca: "cert_parse rest = Inr (ca, rest_b)"
    and cb: "cert_parse rest_b = Inr (cb, rest_c)"
  shows "parse sig_parse cert_parse f0 =
          Inr \<lparr>signature = sg, issuer = iss, ecdhdata = ecdh, unused1 = unu,
               titlekey = tk, unknown1 = uka, ticketid = tkid, consoleid = be_int b_cid,
               titleid = be_int b_tid, unknown2 = ukb, titleversion = be_int b_ver,
               permitted_titles_mask = be_int b_ptm, permit_mask = be_int b_pm,
               export_allowed = (hd b_ex \<noteq> 0),
               ckeyindex = be_int b_ck, unknown3 = ukc, content_access_permissions = cap,
               padding = be_int b_pad, limits = lim, certificates = [ca, cb]\<rparr>"
  using len
  by (simp add: parse_def sg bindE_def read_append struct_unpack_def unpack_bool_single ca cb)

lemma hd_pack_bool: "(hd (pack_bool b) \<noteq> 0) = b"
  by (simp add: pack_bool_def)

lemma length_pack_bool: "length (pack_bool b) = 1"
  by (simp add: pack_bool_def)

lemma be_int_single: "0 \<le> x \<Longrightarrow> x < 256 \<Longrightarrow> be_int [word_of_int x] = x"
  using be_int_be_bytes [of x 1] by simp

lemma parse_pack_valid:
  assumes v: "valid_ticket t"
    and sg: "\<And>rest. sig_parse (sig_pack (signature t) @ rest) = Inr (signature t, rest)"
    and ct: "\<And>c rest. c \<in> set (certificates t) \<Longrightarrow> cert_parse (cert_pack c @ rest) = Inr (c, rest)"
  shows "\<exists>bs. pack sig_pack cert_pack t True True = Inr bs
              \<and> parse sig_parse cert_parse bs = Inr t"
proof -
  from v obtain c1 c2 where cs: "certificates t = [c1, c2]"
    by (auto simp: valid_ticket_def length_Suc_conv numeral_2_eq_2)
  have p1: "cert_parse (cert_pack c1 @ cert_pack c2) = Inr (c1, cert_pack c2)"
    using ct [of c1 "cert_pack c2"] cs by simp
  have p2: "cert_parse (cert_pack c2) = Inr (c2, [])"
    using ct [of c2 "[]"] cs by simp
  let ?body = "issuer t @ ecdhdata t @ unused1 t @ titlekey t @ unknown1 t @ ticketid t
          @ be_bytes 4 (consoleid t) @ be_bytes 8 (titleid t) @ unknown2 t
          @ be_bytes 2 (titleversion t) @ be_bytes 4 (permitted_titles_mask t)
          @ be_bytes 4 (permit_mask t)
          @ pack_bool (export_allowed t) @ be_bytes 1 (ckeyindex t)
          @ unknown3 t @ content_access_permissions t @ be_bytes 2 (padding t) @ limits t
          @ cert_pack c1 @ cert_pack c2"
  have pk: "pack sig_pack cert_pack t True True = Inr (sig_pack (signature t) @ ?body)"
    by (simp only: pack_valid [OF v] cs if_True list.map concat.simps append_Nil2)
  have "parse sig_parse cert_parse (sig_pack (signature t) @ ?body) =
          Inr \<lparr>signature = signature t, issuer = issuer t, ecdhdata = ecdhdata t,
               unused1 = unused1 t, titlekey = titlekey t, unknown1 = unknown1 t,
               ticketid = ticketid t, consoleid = be_int (be_bytes 4 (consoleid t)),
               titleid = be_int (be_bytes 8 (titleid t)), unknown2 = unknown2 t,
               titleversion = be_int (be_bytes 2 (titleversion t)),
               permitted_titles_mask = be_int (be_bytes 4 (permitted_titles_mask t)),
               permit_mask = be_int (be_bytes 4 (permit_mask t)),
               export_allowed = (hd (pack_bool (export_allowed t)) \<noteq> 0),
               ckeyindex = be_int (be_bytes 1 (ckeyindex t)), unknown3 = unknown3 t,
               content_access_permissions = content_access_permissions t,
               padding = be_int (be_bytes 2 (padding t)), limits = limits t,
               certificates = [c1, c2]\<rparr>"
    using v
    by (intro parse_layout [where iss = "issuer t" and ecdh = "ecdhdata t"
          and unu = "unused1 t" and tk = "titlekey t" and uka = "unknown1 t"
          and tkid = "ticketid t" and b_cid = "be_bytes 4 (consoleid t)"
          and b_tid = "be_bytes 8 (titleid t)" and ukb = "unknown2 t"
          and b_ver = "be_bytes 2 (titleversion t)"
          and b_ptm = "be_bytes 4 (permitted_titles_mask t)"
          and b_pm = "be_bytes 4 (permit_mask t)" and b_ex = "pack_bool (export_allowed t)"
          and b_ck = "be_bytes 1 (ckeyindex t)" and ukc = "unknown3 t"
          and cap = "content_access_permissions t" and b_pad = "be_bytes 2 (padding t)"
          and lim = "limits t" and rest = "cert_pack c1 @ cert_pack c2"
          and rest_b = "cert_pack c2" and rest_c = "[]" and ca = c1 and cb = c2] sg p1 p2)
       (simp_all only: valid_ticket_def length_be_bytes length_pack_bool)
  also have "\<dots> = Inr t"
  proof -
    have "be_int (be_bytes 4 (consoleid t)) = consoleid t"
      "be_int (be_bytes 8 (titleid t)) = titleid t"
      "be_int (be_bytes 2 (titleversion t)) = titleversion t"
      "be_int (be_bytes 4 (permitted_titles_mask t)) = permitted_titles_mask t"
      "be_int (be_bytes 4 (permit_mask t)) = permit_mask t"
      "be_int (be_bytes 1 (ckeyindex t)) = ckeyindex t"
      "be_int (be_bytes 2 (padding t)) = padding t"
      using v by (auto simp: valid_ticket_def be_int_single intro!: be_int_be_bytes)
    then show ?thesis
      by (simp only: hd_pack_bool cs [symmetric]) simp
  qed
  finally show ?thesis using pk by simp
qed

lemmas parse_eval = parse_def block_parse_def read_def struct_unpack_def unpack_bool_def
  bindE_def be_int_def Ticket_init_def replicate_numeral_Cons

text \<open>
  C1. A stream whose \<open>export_allowed\<close> byte is \<open>0x02\<close> parses (the byte reads as
  \<open>True\<close>), and packing the parsed ticket with signature and certificates writes
  \<open>0x01\<close> there: the output differs from the input.
\<close>

theorem pack_parse_export_byte_counterexample:
  "parse (block_parse 4) (block_parse 2)
     ([1, 2, 3, 4] @ replicate 176 0 @ [2] @ replicate 179 0 @ [5, 6] @ [7, 8])
     = Inr ((Ticket_init [1, 2, 3, 4] [5, 6] [7, 8])\<lparr>export_allowed := True\<rparr>)
   \<and> pack (\<lambda>s. s) (\<lambda>c. c) ((Ticket_init [1, 2, 3, 4] [5, 6] [7, 8])\<lparr>export_allowed := True\<rparr>)
        True True
     = Inr ([1, 2, 3, 4] @ replicate 176 0 @ [1] @ replicate 179 0 @ [5, 6] @ [7, 8])
   \<and> [1, 2, 3, 4] @ replicate 176 0 @ [1] @ replicate 179 0 @ [5, 6] @ [7, 8]
     \<noteq> [1, 2, 3, 4] @ replicate 176 0 @ [2 :: byte] @ replicate 179 0 @ [5, 6] @ [7, 8]"
proof -
  have a: "parse (block_parse 4) (block_parse 2)
     ([1, 2, 3, 4] @ replicate 176 0 @ [2] @ replicate 179 0 @ [5, 6] @ [7, 8])
     = Inr ((Ticket_init [1, 2, 3, 4] [5, 6] [7, 8])\<lparr>export_allowed := True\<rparr>)"
    by (simp add: parse_eval)
  have b: "pack (\<lambda>s. s) (\<lambda>c. c)
       ((Ticket_init [1, 2, 3, 4 :: byte] [5, 6 :: byte] [7, 8])\<lparr>export_allowed := True\<rparr>) True True
     = Inr ([1, 2, 3, 4] @ replicate 176 0 @ [1] @ replicate 179 0 @ [5, 6] @ [7, 8])"
    by (simp add: pack_eval)
  have c: "[1, 2, 3, 4] @ replicate 176 0 @ [1] @ replicate 179 0 @ [5, 6] @ [7, 8]
     \<noteq> [1, 2, 3, 4] @ replicate 176 0 @ [2 :: byte] @ replicate 179 0 @ [5, 6] @ [7, 8]"
    by simp
  from a b c show ?thesis by blast
qed

text \<open>
  C1, amended. For every valid Ticket, with a Signature codec and a Certificate codec
  that read back what they wrote, \<open>pack\<close> with signature and certificates succeeds and
  parsing its output gives the same Ticket, field for field (the \<open>limits\<close> bytes
  included); so packing the Ticket parsed from packed bytes reproduces those bytes.
\<close>

theorem parse_pack_roundtrip:
  assumes "valid_ticket t"
    and "\<And>rest. sig_parse (sig_pack (signature t) @ rest) = Inr (signature t, rest)"
    and "\<And>c rest. c \<in> set (certificates t) \<Longrightarrow> cert_parse (cert_pack c @ rest) = Inr (c, rest)"
  shows "\<exists>bs. pack sig_pack cert_pack t True True = Inr bs
              \<and> parse sig_parse cert_parse bs = Inr t
              \<and> bindE (parse sig_parse cert_parse bs)
                   (\<lambda>t'. pack sig_pack cert_pack t' True True) = Inr bs"
proof -
  have "\<exists>bs. pack sig_pack cert_pack t True True = Inr bs
              \<and> parse sig_parse cert_parse bs = Inr t"
    by (rule parse_pack_valid) (fact assms)+
  then obtain bs where
    "pack sig_pack cert_pack t True True = Inr bs" "parse sig_parse cert_parse bs = Inr t"
    by blast
  then show ?thesis by (simp add: bindE_def)
qed

theorem parse_pack_roundtrip_witness:
  "valid_ticket ((Ticket_init [1, 2, 3, 4 :: byte] [5, 6 :: byte] [7, 8])
       \<lparr>titleid := 0x0001000248414341, export_allowed := True, ckeyindex := 1,
        padding := 0x1234, limits := replicate 64 0xEE\<rparr>)
   \<and> (\<forall>rest. block_parse 4 ([1, 2, 3, 4] @ rest) = Inr ([1, 2, 3, 4], rest))
   \<and> (\<forall>rest. block_parse 2 ([5, 6] @ rest) = Inr ([5, 6], rest))
   \<and> (\<forall>rest. block_parse 2 ([7, 8] @ rest) = Inr ([7, 8], rest))
   \<and> (\<exists>bs. pack (\<lambda>s. s) (\<lambda>c. c) ((Ticket_init [1, 2, 3, 4 :: byte] [5, 6 :: byte] [7, 8])
                \<lparr>titleid := 0x0001000248414341, export_allowed := True, ckeyindex := 1,
                 padding := 0x1234, limits := replicate 64 0xEE\<rparr>) True True = Inr bs
          \<and> parse (block_parse 4) (block_parse 2) bs
              = Inr ((Ticket_init [1, 2, 3, 4] [5, 6] [7, 8])
                \<lparr>titleid := 0x0001000248414341, export_allowed := True, ckeyindex := 1,
                 padding := 0x1234, limits := replicate 64 0xEE\<rparr>)
          \<and> bindE (parse (block_parse 4) (block_parse 2) bs)
               (\<lambda>t'. pack (\<lambda>s. s) (\<lambda>c. c) t' True True) = Inr bs)"
proof -
  let ?T = "(Ticket_init [1, 2, 3, 4 :: byte] [5, 6 :: byte] [7, 8])
       \<lparr>titleid := 0x0001000248414341, export_allowed := True, ckeyindex := 1,
        padding := 0x1234, limits := replicate 64 0xEE\<rparr>"
  have v: "valid_ticket ?T"
    by (simp add: valid_ticket_def Ticket_init_def)
  have s: "\<And>rest. block_parse 4 ((\<lambda>s. s) (signature ?T) @ rest) = Inr (signature ?T, rest)"
    by (simp add: block_parse_def Ticket_init_def)
  have c: "\<And>c rest. c \<in> set (certificates ?T)
             \<Longrightarrow> block_parse 2 ((\<lambda>c. c) c @ rest) = Inr (c, rest)"
    by (auto simp: block_parse_def Ticket_init_def)
  show ?thesis
    using v parse_pack_roundtrip [where t = ?T and sig_parse = "block_parse 4"
        and sig_pack = "\<lambda>s. s" and cert_parse = "block_parse 2" and cert_pack = "\<lambda>c. c"] s c
    by (simp add: block_parse_def)
qed

lemma take_drop_join: "m = k + n \<Longrightarrow> take n (drop k f) @ drop m f = drop k f"
  by (metis add.commute append_take_drop_id drop_drop)

lemma struct_pack_be_int:
  "length b = n \<Longrightarrow> struct_pack fld n (be_int b) = Inr b"
  using be_int_nonneg [of b] be_int_less [of b] be_bytes_be_int [of b]
  by (simp add: struct_pack_def)

lemma pack_bool_byte:
  "176 < length f \<Longrightarrow> f ! 176 = 0 \<or> f ! 176 = 1 \<Longrightarrow>
   pack_bool (hd (drop 176 f) \<noteq> 0) = take 1 (drop 176 f)"
  by (auto simp: pack_bool_def hd_drop_conv_nth take_Suc_conv_app_nth)

text \<open>
  The other direction, on streams: when the Signature and Certificate parsers consume
  exactly what their packers write, the stream ends with the second certificate and the
  \<open>export_allowed\<close> byte is \<open>0x00\<close> or \<open>0x01\<close>, the parsed ticket packs to the stream.
\<close>

lemma pack_parse_stream:
  assumes sg: "sig_parse f0 = Inr (sg, f)" and sgv: "f0 = sig_pack sg @ f"
    and len: "356 \<le> length f"
    and ex: "f ! 176 = 0 \<or> f ! 176 = 1"
    and c1: "cert_parse (drop 356 f) = Inr (ca, r)" and c1v: "drop 356 f = cert_pack ca @ r"
    and c2: "cert_parse r = Inr (cb, [])" and c2v: "r = cert_pack cb"
  shows "\<exists>t. parse sig_parse cert_parse f0 = Inr t
             \<and> pack sig_pack cert_pack t True True = Inr f0"
proof -
  let ?t = "\<lparr>signature = sg, issuer = take 64 f, ecdhdata = take 60 (drop 64 f),
       unused1 = take 3 (drop 124 f), titlekey = take 16 (drop 127 f),
       unknown1 = take 1 (drop 143 f), ticketid = take 8 (drop 144 f),
       consoleid = be_int (take 4 (drop 152 f)), titleid = be_int (take 8 (drop 156 f)),
       unknown2 = take 2 (drop 164 f), titleversion = be_int (take 2 (drop 166 f)),
       permitted_titles_mask = be_int (take 4 (drop 168 f)),
       permit_mask = be_int (take 4 (drop 172 f)),
       export_allowed = (hd (take 1 (drop 176 f)) \<noteq> 0),
       ckeyindex = be_int (take 1 (drop 177 f)), unknown3 = take 48 (drop 178 f),
       content_access_permissions = take 64 (drop 226 f),
       padding = be_int (take 2 (drop 290 f)), limits = take 64 (drop 292 f),
       certificates = [ca, cb]\<rparr>"
  have p: "parse sig_parse cert_parse f0 = Inr ?t"
    using len
    by (simp add: parse_def sg bindE_def read_def struct_unpack_def unpack_bool_single c1 c2)
  have certs: "cert_pack ca @ cert_pack cb = drop 356 f"
    using c1v c2v by simp
  have body: "take 64 f @ take 60 (drop 64 f) @ take 3 (drop 124 f) @ take 16 (drop 127 f)
      @ take 1 (drop 143 f) @ take 8 (drop 144 f) @ take 4 (drop 152 f)
      @ take 8 (drop 156 f) @ take 2 (drop 164 f) @ take 2 (drop 166 f)
      @ take 4 (drop 168 f) @ take 4 (drop 172 f) @ take 1 (drop 176 f)
      @ take 1 (drop 177 f) @ take 48 (drop 178 f) @ take 64 (drop 226 f)
      @ take 2 (drop 290 f) @ take 64 (drop 292 f) @ drop 356 f = f"
    by (simp add: take_drop_join)
  have "pack sig_pack cert_pack ?t True True = Inr (sig_pack sg @ f)"
    using len ex
    by (simp add: pack_def struct_pack_be_int bindE_def pack_bool_byte certs body
        del: One_nat_def)
  with p sgv show ?thesis by simp
qed

section \<open>The codec: truncated streams\<close>

lemma unpack_bool_length:
  "unpack_bool fld b = (if length b = 1 then Inr (hd b \<noteq> 0) else Inl (StructError fld))"
  by (cases b) (auto simp: unpack_bool_def split: list.splits)

lemma parse_sig_error: "sig_parse f0 = Inl e \<Longrightarrow> parse sig_parse cert_parse f0 = Inl e"
  by (simp add: parse_def bindE_def)

text \<open>
  C7. A stream that ends ten bytes after the signature is too short already at the
  first field (\<open>issuer\<close>, 64 bytes), but \<open>f.read(64)\<close> returns the ten bytes without
  failing; the parse fails later, at the first \<open>struct.unpack\<close> (\<open>consoleid\<close>).
\<close>

theorem parse_truncated_issuer_counterexample:
  "read 64 (replicate 10 0xAA) = (replicate 10 0xAA, [])
   \<and> parse (block_parse 4) (block_parse 2) ([1, 2, 3, 4] @ replicate 10 0xAA)
       = Inl (StructError ''consoleid'')"
  by (simp add: parse_eval)

text \<open>
  C7, amended. No stream that ends before the end of the fixed record parses
  successfully, provided the Certificate parser rejects the empty stream. The byte
  fields are read short without failing; the parse fails with \<open>struct.error\<close> at the
  first integer field whose bytes are incomplete, or, when only \<open>limits\<close> is short, in
  the Certificate parser.
\<close>

theorem parse_truncated_fails:
  assumes "sig_parse f0 = Inr (sg, f)" and "length f < 356" and "cert_parse [] = Inl e"
  shows "parse sig_parse cert_parse f0 =
     Inl (if length f < 156 then StructError ''consoleid''
          else if length f < 164 then StructError ''titleid''
          else if length f < 168 then StructError ''titleversion''
          else if length f < 172 then StructError ''permitted_titles_mask''
          else if length f < 176 then StructError ''permit_mask''
          else if length f < 177 then StructError ''export_allowed''
          else if length f < 178 then StructError ''ckeyindex''
          else if length f < 292 then StructError ''padding''
          else e)"
proof -
  note defs = parse_def bindE_def read_def struct_unpack_def unpack_bool_length min_def
  consider (cid) "length f < 156"
    | (tid) "156 \<le> length f" "length f < 164"
    | (ver) "164 \<le> length f" "length f < 168"
    | (ptm) "168 \<le> length f" "length f < 172"
    | (pm) "172 \<le> length f" "length f < 176"
    | (ex) "length f = 176"
    | (ck) "length f = 177"
    | (pad) "178 \<le> length f" "length f < 292"
    | (lim) "292 \<le> length f" "length f < 356"
    using assms(2) by linarith
  then show ?thesis
  proof cases
    case cid
    then show ?thesis using assms(1) by (auto simp: defs)
  next
    case tid
    then show ?thesis using assms(1) by (auto simp: defs)
  next
    case ver
    then show ?thesis using assms(1) by (auto simp: defs)
  next
    case ptm
    then show ?thesis using assms(1) by (auto simp: defs)
  next
    case pm
    then show ?thesis using assms(1) by (auto simp: defs)
  next
    case ex
    then show ?thesis using assms(1) by (auto simp: defs)
  next
    case ck
    then show ?thesis using assms(1) by (auto simp: defs)
  next
    case pad
    then show ?thesis using assms(1) by (auto simp: defs)
  next
    case lim
    then show ?thesis using assms(1) assms(3) by (auto simp: defs)
  qed
qed

theorem parse_truncated_fails_witness:
  "block_parse 4 ([1, 2, 3, 4] @ replicate 200 0xAA) = Inr ([1, 2, 3, 4], replicate 200 0xAA)
   \<and> length (replicate 200 (0xAA :: byte)) < 356
   \<and> block_parse 2 [] = Inl (StructError ''block'')
   \<and> parse (block_parse 4) (block_parse 2) ([1, 2, 3, 4] @ replicate 200 0xAA)
       = Inl (StructError ''padding'')"
proof -
  have s: "block_parse 4 ([1, 2, 3, 4] @ replicate 200 0xAA)
             = Inr ([1, 2, 3, 4], replicate 200 0xAA)"
    by (simp add: block_parse_def)
  have l: "length (replicate 200 (0xAA :: byte)) < 356" by simp
  have c: "block_parse 2 [] = Inl (StructError ''block'')"
    by (simp add: block_parse_def)
  show ?thesis
    using s l c parse_truncated_fails [where sig_parse = "block_parse 4"
        and cert_parse = "block_parse 2", OF s l c] by simp
qed

end
